theory Spec2Isabelle
  imports Complex_Main "HOL-Library.AList" "HOL-Library.Multiset"
begin

section \<open>Go standard library: the string functions the code calls\<close>

text \<open>
  A Go string is a sequence of bytes; \<open>string\<close> (a list of 8-bit characters) models it.
  The code calls \<^verbatim>\<open>strings.Split\<close> and \<^verbatim>\<open>strings.SplitN\<close> with the one-byte separators
  \<^verbatim>\<open>","\<close>, \<^verbatim>\<open>";"\<close>, \<^verbatim>\<open>"/"\<close> and \<^verbatim>\<open>"="\<close> only, so the separator is a character here.
\<close>

text \<open>
  \<^verbatim>\<open>strings.Split(s, sep)\<close>: cut at every occurrence of the separator. The result has
  one more element than there are separators; in particular \<^verbatim>\<open>Split("", sep)\<close> is the
  one-element slice holding the empty string.
\<close>

function strings_Split :: "string \<Rightarrow> char \<Rightarrow> string list" where
  "strings_Split s sep =
     (case dropWhile (\<lambda>c. c \<noteq> sep) s of
        [] \<Rightarrow> [s]
      | _ # rest \<Rightarrow> takeWhile (\<lambda>c. c \<noteq> sep) s # strings_Split rest sep)"
  by pat_completeness auto
termination
proof (relation "measure (\<lambda>(s, sep). length s)")
  show "wf (measure (\<lambda>(s, sep). length s))" by simp
next
  fix s :: string and sep x rest
  assume "dropWhile (\<lambda>c. c \<noteq> sep) s = x # rest"
  then have "length (x # rest) \<le> length s"
    by (metis length_dropWhile_le)
  then show "((rest, sep), (s, sep)) \<in> measure (\<lambda>(s, sep). length s)"
    by simp
qed

declare strings_Split.simps [simp del]

text \<open>
  \<^verbatim>\<open>strings.SplitN(s, sep, 2)\<close>: cut at the first occurrence of the separator only; a
  string without the separator comes back alone.
\<close>

definition strings_SplitN2 :: "string \<Rightarrow> char \<Rightarrow> string list" where
  "strings_SplitN2 s sep =
     (case dropWhile (\<lambda>c. c \<noteq> sep) s of
        [] \<Rightarrow> [s]
      | _ # rest \<Rightarrow> [takeWhile (\<lambda>c. c \<noteq> sep) s, rest])"

text \<open>
  \<^verbatim>\<open>strings.TrimSpace\<close> removes leading and trailing white space as Unicode defines it
  (\<^verbatim>\<open>unicode.IsSpace\<close>), reading the bytes as UTF-8. The white-space code points are
  U+0009 to U+000D, U+0020, U+0085, U+00A0, U+1680, U+2000 to U+200A, U+2028, U+2029,
  U+202F, U+205F and U+3000; \<open>unicodeSpaces\<close> lists their UTF-8 encodings. A byte
  sequence that is not the encoding of one of them (also an invalid one) stops the trim.
\<close>

definition unicodeSpaces :: "string list" where
  "unicodeSpaces =
    [ [CHR 0x09], [CHR 0x0A], [CHR 0x0B], [CHR 0x0C], [CHR 0x0D], [CHR 0x20],
     [CHR 0xC2, CHR 0x85], [CHR 0xC2, CHR 0xA0],
     [CHR 0xE1, CHR 0x9A, CHR 0x80],
     [CHR 0xE2, CHR 0x80, CHR 0x80], [CHR 0xE2, CHR 0x80, CHR 0x81],
     [CHR 0xE2, CHR 0x80, CHR 0x82], [CHR 0xE2, CHR 0x80, CHR 0x83],
     [CHR 0xE2, CHR 0x80, CHR 0x84], [CHR 0xE2, CHR 0x80, CHR 0x85],
     [CHR 0xE2, CHR 0x80, CHR 0x86], [CHR 0xE2, CHR 0x80, CHR 0x87],
     [CHR 0xE2, CHR 0x80, CHR 0x88], [CHR 0xE2, CHR 0x80, CHR 0x89],
     [CHR 0xE2, CHR 0x80, CHR 0x8A],
     [CHR 0xE2, CHR 0x80, CHR 0xA8], [CHR 0xE2, CHR 0x80, CHR 0xA9],
     [CHR 0xE2, CHR 0x80, CHR 0xAF],
     [CHR 0xE2, CHR 0x81, CHR 0x9F],
     [CHR 0xE3, CHR 0x80, CHR 0x80]]"

text \<open>Strip, as long as there is one, a leading occurrence of one of the words \<open>ws\<close>.\<close>

function trimPrefixes :: "string list \<Rightarrow> string \<Rightarrow> string" where
  "trimPrefixes ws s =
     (case find (\<lambda>w. w \<noteq> [] \<and> take (length w) s = w) ws of
        None \<Rightarrow> s
      | Some w \<Rightarrow> trimPrefixes ws (drop (length w) s))"
  by pat_completeness auto
termination
proof (relation "measure (\<lambda>(ws, s). length s)")
  show "wf (measure (\<lambda>(ws, s). length s))" by simp
next
  fix ws :: "string list" and s w :: string
  assume "find (\<lambda>w. w \<noteq> [] \<and> take (length w) s = w) ws = Some w"
  then have w: "w \<noteq> []" "take (length w) s = w"
    by (auto simp: find_Some_iff)
  from w(2) have "length (take (length w) s) = length w"
    by simp
  then have "length w \<le> length s"
    by simp
  with w(1) show "((ws, drop (length w) s), (ws, s)) \<in> measure (\<lambda>(ws, s). length s)"
    by (cases w) auto
qed

declare trimPrefixes.simps [simp del]

definition strings_TrimSpace :: "string \<Rightarrow> string" where
  "strings_TrimSpace s =
     rev (trimPrefixes (map rev unicodeSpaces) (rev (trimPrefixes unicodeSpaces s)))"

section \<open>The 64-bit floating-point values of the quality factor\<close>

text \<open>
  A \<^verbatim>\<open>float64\<close> is a finite number, an infinity or not-a-number. The code only compares
  quality factors (\<^verbatim>\<open><\<close>, \<^verbatim>\<open>>\<close>), and every comparison that involves not-a-number is
  false. Negative zero compares equal to zero and is not told apart here.
\<close>

datatype float64 = NaN | NegInf | Finite real | PosInf

fun f64_less :: "float64 \<Rightarrow> float64 \<Rightarrow> bool" where
  "f64_less (Finite x) (Finite y) = (x < y)"
| "f64_less NegInf (Finite y) = True"
| "f64_less NegInf PosInf = True"
| "f64_less (Finite x) PosInf = True"
| "f64_less _ _ = False"

definition f64_greater :: "float64 \<Rightarrow> float64 \<Rightarrow> bool" where
  "f64_greater x y = f64_less y x"

text \<open>The closed interval from 0 to 1, where a quality factor is meant to lie.\<close>

fun in_unit_interval :: "float64 \<Rightarrow> bool" where
  "in_unit_interval (Finite x) = (0 \<le> x \<and> x \<le> 1)"
| "in_unit_interval _ = False"

text \<open>
  \<^verbatim>\<open>strconv.ParseFloat(s, 64)\<close> belongs to the Go library. The functions below take it
  as the parameter \<open>pf\<close>: \<open>pf s = None\<close> when the call returns an error, \<open>Some v\<close>
  when it returns the value \<open>v\<close> and no error.
\<close>

type_synonym parseFloat = "string \<Rightarrow> float64 option"

section \<open>Media ranges: \<^verbatim>\<open>internal/decode/accept.go\<close>\<close>

datatype decodeType = decodeTypeUnknown | decodeTypeJSON

text \<open>
  The struct \<^verbatim>\<open>accept\<close>. Its field \<^verbatim>\<open>typ\<close> is \<open>typ'\<close> here. The
  \<^verbatim>\<open>extensions\<close> map is an association list with one pair for each key, so that
  its length is the \<^verbatim>\<open>len\<close> of the Go map.
\<close>

record accept =
  typ' :: string
  subtype :: string
  qualityFactor :: float64
  extensions :: "(string \<times> string) list"

type_synonym AcceptSlice = "accept list"

text \<open>
  \<^verbatim>\<open>AcceptSlice.Less(i, j)\<close> compares the elements at the two indices; \<open>accept_less\<close>
  is the comparison of the two elements, branch for branch.
\<close>

definition accept_less :: "accept \<Rightarrow> accept \<Rightarrow> bool" where
  "accept_less ai aj =
     (if f64_greater (qualityFactor ai) (qualityFactor aj) then True
      else if f64_less (qualityFactor ai) (qualityFactor aj) then False
      else if typ' ai \<noteq> ''*'' \<and> typ' aj = ''*'' then True
      else if typ' ai = ''*'' \<and> typ' aj \<noteq> ''*'' then False
      else if subtype ai \<noteq> ''*'' \<and> subtype aj = ''*'' then True
      else if subtype ai = ''*'' \<and> subtype aj \<noteq> ''*'' then False
      else if length (extensions ai) > length (extensions aj) then True
      else False)"

definition AcceptSlice_Less :: "AcceptSlice \<Rightarrow> nat \<Rightarrow> nat \<Rightarrow> bool" where
  "AcceptSlice_Less a i j = accept_less (a ! i) (a ! j)"

definition AcceptSlice_Swap :: "AcceptSlice \<Rightarrow> nat \<Rightarrow> nat \<Rightarrow> AcceptSlice" where
  "AcceptSlice_Swap a i j = a[i := a ! j, j := a ! i]"

text \<open>An index past the end of a slice makes the Go program panic.\<close>

datatype panic = IndexOutOfRange

definition errInvalidTypeSubtype :: "string \<Rightarrow> string" where
  "errInvalidTypeSubtype t = ''accept: Invalid type '' @ [CHR 0x27] @ t @ [CHR 0x27] @ ''.''"

text \<open>
  \<^verbatim>\<open>parseMediaRange\<close> returns the three named results \<^verbatim>\<open>rangeParams\<close>,
  \<^verbatim>\<open>typeSubtype\<close> and \<^verbatim>\<open>err\<close> (\<open>None\<close> for \<^verbatim>\<open>nil\<close>).
\<close>

definition parseMediaRange :: "string \<Rightarrow> panic + (string list \<times> string list \<times> string option)" where
  "parseMediaRange mediaRange =
     (let rangeParams = strings_Split mediaRange CHR '';'' in
      case rangeParams of
        [] \<Rightarrow> Inl IndexOutOfRange
      | rp0 # _ \<Rightarrow>
          let typeSubtype = strings_Split rp0 CHR ''/'' in
          if length typeSubtype > 2
          then Inr (rangeParams, typeSubtype, Some (errInvalidTypeSubtype rp0))
          else
            (case typeSubtype @ [''*''] of
               t0 # t1 # ts \<Rightarrow>
                 let t0 = strings_TrimSpace t0;
                     t1 = strings_TrimSpace t1;
                     t0 = (if t0 = [] then ''*'' else t0);
                     t1 = (if t1 = [] then ''*'' else t1)
                 in Inr (rangeParams, t0 # t1 # ts, None)
             | _ \<Rightarrow> Inl IndexOutOfRange))"

text \<open>
  The loop over \<^verbatim>\<open>rangeParams[1:]\<close>: it returns the entry and the flag
  \<^verbatim>\<open>validParams\<close>, and stops at the first invalid parameter.
\<close>

fun validateParams :: "parseFloat \<Rightarrow> string list \<Rightarrow> accept \<Rightarrow> accept \<times> bool" where
  "validateParams pf [] acc = (acc, True)"
| "validateParams pf (v # vs) acc =
     (let nameVal = strings_SplitN2 v CHR ''='' in
      if length nameVal \<noteq> 2 then (acc, False)
      else
        let val = strings_TrimSpace (nameVal ! 1);
            name = strings_TrimSpace (nameVal ! 0)
        in if name = ''q''
           then (case pf val of
                   None \<Rightarrow> (acc, False)
                 | Some qval \<Rightarrow>
                     if f64_less qval (Finite 0) then (acc, False)
                     else
                       let qval = (if f64_greater qval (Finite 1) then Finite 1 else qval)
                       in validateParams pf vs (acc\<lparr>qualityFactor := qval\<rparr>))
           else validateParams pf vs (acc\<lparr>extensions := AList.update name val (extensions acc)\<rparr>))"

text \<open>One turn of the loop over the media ranges: the slice \<^verbatim>\<open>accepted\<close> after it.\<close>

definition acceptMediaRange :: "parseFloat \<Rightarrow> string \<Rightarrow> AcceptSlice \<Rightarrow> panic + AcceptSlice" where
  "acceptMediaRange pf mediaRange accepted =
     (case parseMediaRange mediaRange of
        Inl p \<Rightarrow> Inl p
      | Inr (rangeParams, typeSubtype, err) \<Rightarrow>
          (case err of
             Some e \<Rightarrow> Inr accepted
           | None \<Rightarrow>
               (case typeSubtype of
                  t0 # t1 # ts \<Rightarrow>
                    let acc = \<lparr>typ' = t0, subtype = t1, qualityFactor = Finite 1, extensions = []\<rparr>
                    in if length rangeParams = 1 then Inr (accepted @ [acc])
                       else
                         (case rangeParams of
                            [] \<Rightarrow> Inl IndexOutOfRange
                          | rp0 # params \<Rightarrow>
                              (case validateParams pf params acc of
                                 (acc', validParams) \<Rightarrow>
                                   if validParams then Inr (accepted @ [acc']) else Inr accepted))
                | _ \<Rightarrow> Inl IndexOutOfRange)))"

fun acceptMediaRanges :: "parseFloat \<Rightarrow> string list \<Rightarrow> AcceptSlice \<Rightarrow> panic + AcceptSlice" where
  "acceptMediaRanges pf [] accepted = Inr accepted"
| "acceptMediaRanges pf (mediaRange # mediaRanges) accepted =
     (case acceptMediaRange pf mediaRange accepted of
        Inl p \<Rightarrow> Inl p
      | Inr accepted' \<Rightarrow> acceptMediaRanges pf mediaRanges accepted')"

text \<open>
  \<^verbatim>\<open>sort.Sort\<close> belongs to the Go library too and is the parameter \<open>srt\<close>: the slice
  after the call, as a function of the slice before it.
\<close>

type_synonym sorter = "AcceptSlice \<Rightarrow> AcceptSlice"

definition parseAcceptHeader :: "parseFloat \<Rightarrow> sorter \<Rightarrow> string \<Rightarrow> panic + AcceptSlice" where
  "parseAcceptHeader pf srt header =
     (case acceptMediaRanges pf (strings_Split header CHR '','') [] of
        Inl p \<Rightarrow> Inl p
      | Inr accepted \<Rightarrow> Inr (srt accepted))"

text \<open>The loop of \<^verbatim>\<open>bestFitDecodeType\<close> over the ranked entries.\<close>

fun firstFit :: "AcceptSlice \<Rightarrow> decodeType" where
  "firstFit [] = decodeTypeUnknown"
| "firstFit (acc # accepted) =
     (if typ' acc = ''*'' \<and> subtype acc = ''*'' then decodeTypeJSON
      else if typ' acc = ''application'' \<and> (subtype acc = ''json'' \<or> subtype acc = ''*'')
      then decodeTypeJSON
      else firstFit accepted)"

definition bestFitDecodeType :: "parseFloat \<Rightarrow> sorter \<Rightarrow> string \<Rightarrow> panic + decodeType" where
  "bestFitDecodeType pf srt header =
     (case parseAcceptHeader pf srt header of
        Inl p \<Rightarrow> Inl p
      | Inr accepted \<Rightarrow>
          if length accepted = 0 then Inr decodeTypeJSON
          else Inr (firstFit accepted))"

text \<open>
  The entries that one media range adds to the slice (none or one), and the media ranges
  on which \<^verbatim>\<open>parseMediaRange\<close> fails: more than two segments between the slashes of
  the part before the first semicolon.
\<close>

definition mediaRangeEntries :: "parseFloat \<Rightarrow> string \<Rightarrow> AcceptSlice" where
  "mediaRangeEntries pf mediaRange =
     (case acceptMediaRange pf mediaRange [] of Inl p \<Rightarrow> [] | Inr accepted \<Rightarrow> accepted)"

definition malformedTypeSubtype :: "string \<Rightarrow> bool" where
  "malformedTypeSubtype mediaRange =
     (case strings_Split mediaRange CHR '';'' of
        [] \<Rightarrow> False
      | rp0 # _ \<Rightarrow> length (strings_Split rp0 CHR ''/'') > 2)"

section \<open>The Go library behind the two parameters\<close>

subsection \<open>What \<^verbatim>\<open>sort.Sort\<close> promises\<close>

text \<open>
  The documentation of \<^verbatim>\<open>sort.Sort\<close> promises a slice with the same elements, in
  ascending order as \<^verbatim>\<open>Less\<close> determines it, and says that the sort is not guaranteed
  to be stable. \<open>sort_Sort_post before after\<close> is that promise: no element is
  \<^verbatim>\<open>Less\<close> than one that stands before it.
\<close>

definition sort_Sort_post :: "AcceptSlice \<Rightarrow> AcceptSlice \<Rightarrow> bool" where
  "sort_Sort_post before after \<longleftrightarrow>
     mset after = mset before \<and> sorted_wrt (\<lambda>x y. \<not> accept_less y x) after"

subsection \<open>The algorithm of \<^verbatim>\<open>sort.Sort\<close> (Go 1.19 and later)\<close>

text \<open>
  Since Go 1.19 \<^verbatim>\<open>sort.Sort\<close> is a pattern-defeating quicksort over the three methods
  \<^verbatim>\<open>Len\<close>, \<^verbatim>\<open>Less\<close> and \<^verbatim>\<open>Swap\<close>. Indices are Go's signed \<^verbatim>\<open>int\<close>. The functions
  return the slice after the call next to their own results.
\<close>

definition data_Less :: "AcceptSlice \<Rightarrow> int \<Rightarrow> int \<Rightarrow> bool" where
  "data_Less data i j = AcceptSlice_Less data (nat i) (nat j)"

definition data_Swap :: "AcceptSlice \<Rightarrow> int \<Rightarrow> int \<Rightarrow> AcceptSlice" where
  "data_Swap data i j = AcceptSlice_Swap data (nat i) (nat j)"

text \<open>\<^verbatim>\<open>for j := i; j > a && data.Less(j, j-1); j-- { data.Swap(j, j-1) }\<close>\<close>

function insertionSort_shift :: "AcceptSlice \<Rightarrow> int \<Rightarrow> int \<Rightarrow> AcceptSlice" where
  "insertionSort_shift data a j =
     (if j > a \<and> data_Less data j (j - 1)
      then insertionSort_shift (data_Swap data j (j - 1)) a (j - 1)
      else data)"
  by pat_completeness auto
termination
  by (relation "measure (\<lambda>(data, a, j). nat (j - a))") auto

declare insertionSort_shift.simps [simp del]

text \<open>\<^verbatim>\<open>for i := a + 1; i < b; i++ { ... }\<close>\<close>

function insertionSort_from :: "AcceptSlice \<Rightarrow> int \<Rightarrow> int \<Rightarrow> int \<Rightarrow> AcceptSlice" where
  "insertionSort_from data a b i =
     (if i < b then insertionSort_from (insertionSort_shift data a i) a b (i + 1) else data)"
  by pat_completeness auto
termination
  by (relation "measure (\<lambda>(data, a, b, i). nat (b - i))") auto

declare insertionSort_from.simps [simp del]

definition insertionSort :: "AcceptSlice \<Rightarrow> int \<Rightarrow> int \<Rightarrow> AcceptSlice" where
  "insertionSort data a b = insertionSort_from data a b (a + 1)"

datatype sortedHint = unknownHint | increasingHint | decreasingHint

definition order2 :: "AcceptSlice \<Rightarrow> int \<Rightarrow> int \<Rightarrow> nat \<Rightarrow> int \<times> int \<times> nat" where
  "order2 data a b swaps = (if data_Less data b a then (b, a, swaps + 1) else (a, b, swaps))"

definition median :: "AcceptSlice \<Rightarrow> int \<Rightarrow> int \<Rightarrow> int \<Rightarrow> nat \<Rightarrow> int \<times> nat" where
  "median data a b c swaps =
     (case order2 data a b swaps of (a, b, swaps) \<Rightarrow>
      case order2 data b c swaps of (b, c, swaps) \<Rightarrow>
      case order2 data a b swaps of (a, b, swaps) \<Rightarrow> (b, swaps))"

definition medianAdjacent :: "AcceptSlice \<Rightarrow> int \<Rightarrow> nat \<Rightarrow> int \<times> nat" where
  "medianAdjacent data a swaps = median data (a - 1) a (a + 1) swaps"

definition choosePivot :: "AcceptSlice \<Rightarrow> int \<Rightarrow> int \<Rightarrow> int \<times> sortedHint" where
  "choosePivot data a b =
     (let l = b - a;
          i = a + l div 4 * 1;
          j = a + l div 4 * 2;
          k = a + l div 4 * 3;
          (j, swaps) =
            (if l \<ge> 8
             then (if l \<ge> 50
                   then (case medianAdjacent data i 0 of (i, swaps) \<Rightarrow>
                         case medianAdjacent data j swaps of (j, swaps) \<Rightarrow>
                         case medianAdjacent data k swaps of (k, swaps) \<Rightarrow>
                           median data i j k swaps)
                   else median data i j k 0)
             else (j, 0))
      in if swaps = 0 then (j, increasingHint)
         else if swaps = 4 * 3 then (j, decreasingHint)
         else (j, unknownHint))"

text \<open>\<^verbatim>\<open>reverseRange\<close>: swap the ends towards the middle.\<close>

function reverseRange_loop :: "AcceptSlice \<Rightarrow> int \<Rightarrow> int \<Rightarrow> AcceptSlice" where
  "reverseRange_loop data i j =
     (if i < j then reverseRange_loop (data_Swap data i j) (i + 1) (j - 1) else data)"
  by pat_completeness auto
termination
  by (relation "measure (\<lambda>(data, i, j). nat (j - i))") auto

declare reverseRange_loop.simps [simp del]

definition reverseRange :: "AcceptSlice \<Rightarrow> int \<Rightarrow> int \<Rightarrow> AcceptSlice" where
  "reverseRange data a b = reverseRange_loop data a (b - 1)"

text \<open>\<^verbatim>\<open>for i < b && !data.Less(i, i-1) { i++ }\<close>\<close>

function skipOrdered :: "AcceptSlice \<Rightarrow> int \<Rightarrow> int \<Rightarrow> int" where
  "skipOrdered data b i =
     (if i < b \<and> \<not> data_Less data i (i - 1) then skipOrdered data b (i + 1) else i)"
  by pat_completeness auto
termination
  by (relation "measure (\<lambda>(data, b, i). nat (b - i))") auto

declare skipOrdered.simps [simp del]

text \<open>\<^verbatim>\<open>for j := i - 1; j >= 1; j-- { if !data.Less(j, j-1) { break }; data.Swap(j, j-1) }\<close>\<close>

function shiftLeft :: "AcceptSlice \<Rightarrow> int \<Rightarrow> AcceptSlice" where
  "shiftLeft data j =
     (if j \<ge> 1
      then (if \<not> data_Less data j (j - 1) then data
            else shiftLeft (data_Swap data j (j - 1)) (j - 1))
      else data)"
  by pat_completeness auto
termination
  by (relation "measure (\<lambda>(data, j). nat j)") auto

declare shiftLeft.simps [simp del]

text \<open>\<^verbatim>\<open>for j := i + 1; j < b; j++ { if !data.Less(j, j-1) { break }; data.Swap(j, j-1) }\<close>\<close>

function shiftRight :: "AcceptSlice \<Rightarrow> int \<Rightarrow> int \<Rightarrow> AcceptSlice" where
  "shiftRight data b j =
     (if j < b
      then (if \<not> data_Less data j (j - 1) then data
            else shiftRight (data_Swap data j (j - 1)) b (j + 1))
      else data)"
  by pat_completeness auto
termination
  by (relation "measure (\<lambda>(data, b, j). nat (b - j))") auto

declare shiftRight.simps [simp del]

text \<open>
  \<^verbatim>\<open>partialInsertionSort\<close>: at most \<^verbatim>\<open>maxSteps = 5\<close> turns, counted down in
  \<open>steps\<close>; no element is shifted in a range shorter than \<^verbatim>\<open>shortestShifting = 50\<close>.
\<close>

fun partialInsertionSort_loop ::
  "nat \<Rightarrow> AcceptSlice \<Rightarrow> int \<Rightarrow> int \<Rightarrow> int \<Rightarrow> AcceptSlice \<times> bool" where
  "partialInsertionSort_loop 0 data a b i = (data, False)"
| "partialInsertionSort_loop (Suc steps) data a b i =
     (let i = skipOrdered data b i in
      if i = b then (data, True)
      else if b - a < 50 then (data, False)
      else
        let data = data_Swap data i (i - 1);
            data = (if i - a \<ge> 2 then shiftLeft data (i - 1) else data);
            data = (if b - i \<ge> 2 then shiftRight data b (i + 1) else data)
        in partialInsertionSort_loop steps data a b i)"

definition partialInsertionSort :: "AcceptSlice \<Rightarrow> int \<Rightarrow> int \<Rightarrow> AcceptSlice \<times> bool" where
  "partialInsertionSort data a b = partialInsertionSort_loop 5 data a b (a + 1)"

text \<open>\<^verbatim>\<open>for i <= j && data.Less(i, a) { i++ }\<close>\<close>

function scanLess :: "AcceptSlice \<Rightarrow> int \<Rightarrow> int \<Rightarrow> int \<Rightarrow> int" where
  "scanLess data a i j =
     (if i \<le> j \<and> data_Less data i a then scanLess data a (i + 1) j else i)"
  by pat_completeness auto
termination
  by (relation "measure (\<lambda>(data, a, i, j). nat (j + 1 - i))") auto

declare scanLess.simps [simp del]

text \<open>\<^verbatim>\<open>for i <= j && !data.Less(j, a) { j-- }\<close>\<close>

function scanNotLess :: "AcceptSlice \<Rightarrow> int \<Rightarrow> int \<Rightarrow> int \<Rightarrow> int" where
  "scanNotLess data a i j =
     (if i \<le> j \<and> \<not> data_Less data j a then scanNotLess data a i (j - 1) else j)"
  by pat_completeness auto
termination
  by (relation "measure (\<lambda>(data, a, i, j). nat (j + 1 - i))") auto

declare scanNotLess.simps [simp del]

text \<open>
  The second loop of \<^verbatim>\<open>partition\<close>. Each turn that goes on moves \<open>i\<close> and \<open>j\<close> towards
  each other, and \<open>turns\<close> (at least the distance between them) counts the turns down.
\<close>

fun partition_loop :: "nat \<Rightarrow> AcceptSlice \<Rightarrow> int \<Rightarrow> int \<Rightarrow> int \<Rightarrow> (AcceptSlice \<times> int) option" where
  "partition_loop 0 data a i j = None"
| "partition_loop (Suc turns) data a i j =
     (let i = scanLess data a i j;
          j = scanNotLess data a i j
      in if i > j then Some (data, j)
         else partition_loop turns (data_Swap data i j) a (i + 1) (j - 1))"

definition partition :: "AcceptSlice \<Rightarrow> int \<Rightarrow> int \<Rightarrow> int \<Rightarrow> (AcceptSlice \<times> int \<times> bool) option" where
  "partition data a b pivot =
     (let data = data_Swap data a pivot;
          i = a + 1;
          j = b - 1;
          i = scanLess data a i j;
          j = scanNotLess data a i j
      in if i > j then Some (data_Swap data j a, j, True)
         else
           (case partition_loop (nat (b - a)) (data_Swap data i j) a (i + 1) (j - 1) of
              None \<Rightarrow> None
            | Some (data, j) \<Rightarrow> Some (data_Swap data j a, j, False)))"

text \<open>\<^verbatim>\<open>for i <= j && !data.Less(a, i) { i++ }\<close> and \<^verbatim>\<open>for i <= j && data.Less(a, j) { j-- }\<close>\<close>

function scanNotGreater :: "AcceptSlice \<Rightarrow> int \<Rightarrow> int \<Rightarrow> int \<Rightarrow> int" where
  "scanNotGreater data a i j =
     (if i \<le> j \<and> \<not> data_Less data a i then scanNotGreater data a (i + 1) j else i)"
  by pat_completeness auto
termination
  by (relation "measure (\<lambda>(data, a, i, j). nat (j + 1 - i))") auto

declare scanNotGreater.simps [simp del]

function scanGreater :: "AcceptSlice \<Rightarrow> int \<Rightarrow> int \<Rightarrow> int \<Rightarrow> int" where
  "scanGreater data a i j =
     (if i \<le> j \<and> data_Less data a j then scanGreater data a i (j - 1) else j)"
  by pat_completeness auto
termination
  by (relation "measure (\<lambda>(data, a, i, j). nat (j + 1 - i))") auto

declare scanGreater.simps [simp del]

fun partitionEqual_loop :: "nat \<Rightarrow> AcceptSlice \<Rightarrow> int \<Rightarrow> int \<Rightarrow> int \<Rightarrow> (AcceptSlice \<times> int) option" where
  "partitionEqual_loop 0 data a i j = None"
| "partitionEqual_loop (Suc turns) data a i j =
     (let i = scanNotGreater data a i j;
          j = scanGreater data a i j
      in if i > j then Some (data, i)
         else partitionEqual_loop turns (data_Swap data i j) a (i + 1) (j - 1))"

definition partitionEqual :: "AcceptSlice \<Rightarrow> int \<Rightarrow> int \<Rightarrow> int \<Rightarrow> (AcceptSlice \<times> int) option" where
  "partitionEqual data a b pivot =
     partitionEqual_loop (Suc (nat (b - a))) (data_Swap data a pivot) a (a + 1) (b - 1)"

text \<open>
  \<^verbatim>\<open>pdqsort(data, a, b, limit)\<close>, its loop state \<^verbatim>\<open>wasBalanced\<close> and
  \<^verbatim>\<open>wasPartitioned\<close> as arguments. The first argument bounds the number of turns and
  of nested calls. The result is \<open>None\<close> when that bound is used up, and also where the
  run would enter \<^verbatim>\<open>heapSort\<close> (\<^verbatim>\<open>limit == 0\<close>) or \<^verbatim>\<open>breakPatterns\<close> (after an
  unbalanced partition): these two are not part of this model.
\<close>

fun pdqsort ::
  "nat \<Rightarrow> AcceptSlice \<Rightarrow> int \<Rightarrow> int \<Rightarrow> nat \<Rightarrow> bool \<Rightarrow> bool \<Rightarrow> AcceptSlice option" where
  "pdqsort 0 data a b limit wasBalanced wasPartitioned = None"
| "pdqsort (Suc fuel) data a b limit wasBalanced wasPartitioned =
     (let len = b - a in
      if len \<le> 12 then Some (insertionSort data a b)
      else if limit = 0 then None
      else if \<not> wasBalanced then None
      else
        (case choosePivot data a b of (pivot, hint) \<Rightarrow>
         case (if hint = decreasingHint
               then (reverseRange data a b, (b - 1) - (pivot - a), increasingHint)
               else (data, pivot, hint)) of (data, pivot, hint) \<Rightarrow>
         case (if wasBalanced \<and> wasPartitioned \<and> hint = increasingHint
               then partialInsertionSort data a b
               else (data, False)) of (data, done) \<Rightarrow>
         if done then Some data
         else if a > 0 \<and> \<not> data_Less data (a - 1) pivot
         then (case partitionEqual data a b pivot of
                 None \<Rightarrow> None
               | Some (data, mid) \<Rightarrow> pdqsort fuel data mid b limit wasBalanced wasPartitioned)
         else
           (case partition data a b pivot of
              None \<Rightarrow> None
            | Some (data, mid, alreadyPartitioned) \<Rightarrow>
                let leftLen = mid - a;
                    rightLen = b - mid;
                    balanceThreshold = len div 8
                in if leftLen < rightLen
                   then (case pdqsort fuel data a mid limit True True of
                           None \<Rightarrow> None
                         | Some data \<Rightarrow>
                             pdqsort fuel data (mid + 1) b limit
                               (leftLen \<ge> balanceThreshold) alreadyPartitioned)
                   else (case pdqsort fuel data (mid + 1) b limit True True of
                           None \<Rightarrow> None
                         | Some data \<Rightarrow>
                             pdqsort fuel data a mid limit
                               (rightLen \<ge> balanceThreshold) alreadyPartitioned))))"

text \<open>\<^verbatim>\<open>bits.Len\<close>: the number of bits of a number.\<close>

fun bits_Len :: "nat \<Rightarrow> nat" where
  "bits_Len n = (if n = 0 then 0 else Suc (bits_Len (n div 2)))"

declare bits_Len.simps [simp del]

definition sort_Sort :: "AcceptSlice \<Rightarrow> AcceptSlice option" where
  "sort_Sort data =
     (let n = length data in
      if n \<le> 1 then Some data
      else pdqsort (Suc n) data 0 (int n) (bits_Len n) True True)"

text \<open>
  The library's sort as a value of the parameter \<open>srt\<close>. It is used only on slices on
  which \<open>sort_Sort\<close> returns a result.
\<close>

definition go_sort :: sorter where
  "go_sort data = (case sort_Sort data of Some ranked \<Rightarrow> ranked | None \<Rightarrow> data)"

subsection \<open>\<^verbatim>\<open>strconv.ParseFloat\<close> on plain decimal numbers\<close>

text \<open>
  \<^verbatim>\<open>ParseFloat\<close> reads, beside other forms, an optional sign followed by decimal digits
  with an optional fraction, the words \<^verbatim>\<open>inf\<close> and \<^verbatim>\<open>infinity\<close> with an optional
  sign, and the word \<^verbatim>\<open>nan\<close>, the words in any mix of upper and lower case.
  \<open>ParseFloat_plain\<close> covers these forms and nothing else (no exponent, no hexadecimal
  number, no underscore), and gives a decimal number its exact value, where the library
  rounds to the nearest \<^verbatim>\<open>float64\<close>. It is a value of the parameter \<open>pf\<close> for the numbers
  written in the examples; no theorem about all headers depends on it.
\<close>

text \<open>The value of a decimal digit is its place in the row of the ten digits.\<close>

fun placeOf :: "char \<Rightarrow> string \<Rightarrow> nat option" where
  "placeOf c [] = None"
| "placeOf c (x # xs) = (if x = c then Some 0 else map_option Suc (placeOf c xs))"

definition digitVal :: "char \<Rightarrow> nat option" where
  "digitVal c = placeOf c ''0123456789''"

fun digitsVal :: "string \<Rightarrow> nat \<Rightarrow> nat option" where
  "digitsVal [] n = Some n"
| "digitsVal (c # cs) n =
     (case digitVal c of None \<Rightarrow> None | Some d \<Rightarrow> digitsVal cs (10 * n + d))"

definition parseDecimal :: "string \<Rightarrow> real option" where
  "parseDecimal s =
     (let ip = takeWhile (\<lambda>c. c \<noteq> CHR ''.'') s;
          fp = (case dropWhile (\<lambda>c. c \<noteq> CHR ''.'') s of [] \<Rightarrow> [] | _ # f \<Rightarrow> f)
      in if ip = [] \<and> fp = [] then None
         else (case (digitsVal ip 0, digitsVal fp 0) of
                 (Some i, Some f) \<Rightarrow> Some (real i + real f / 10 ^ length fp)
               | _ \<Rightarrow> None))"

text \<open>Lower case for the letters of the two words; no other letter can match them.\<close>

definition lowerLetter :: "char \<Rightarrow> char" where
  "lowerLetter c =
     (if c = CHR ''N'' then CHR ''n'' else if c = CHR ''A'' then CHR ''a''
      else if c = CHR ''I'' then CHR ''i'' else if c = CHR ''F'' then CHR ''f''
      else if c = CHR ''T'' then CHR ''t'' else if c = CHR ''Y'' then CHR ''y''
      else c)"

definition ParseFloat_plain :: parseFloat where
  "ParseFloat_plain s =
     (if map lowerLetter s = ''nan'' then Some NaN
      else
        (case (case s of
                 c # cs \<Rightarrow> if c = CHR ''+'' then (False, cs)
                           else if c = CHR ''-'' then (True, cs) else (False, s)
               | [] \<Rightarrow> (False, s)) of
           (neg, body) \<Rightarrow>
             if map lowerLetter body = ''inf'' \<or> map lowerLetter body = ''infinity''
             then Some (if neg then NegInf else PosInf)
             else (case parseDecimal body of
                     None \<Rightarrow> None
                   | Some r \<Rightarrow> Some (Finite (if neg then - r else r)))))"

section \<open>The signing transport: \<^verbatim>\<open>internal/web/auth/api_key.go\<close>\<close>

text \<open>
  A \<^verbatim>\<open>url.URL\<close> with the fields the transport writes (\<^verbatim>\<open>Scheme\<close>, \<^verbatim>\<open>Host\<close>) and the
  other fields that locate a resource. A request has its method, its URL, its header (a
  map from the canonical form of a key to the values stored under it) and its body: the
  bytes still to be read from it, \<open>None\<close> for a \<^verbatim>\<open>nil\<close> body.
\<close>

record url_URL =
  Scheme :: string
  Opaque :: string
  Host :: string
  Path :: string
  RawQuery :: string
  Fragment :: string

record request =
  Method :: string
  URL :: url_URL
  Header :: "string \<rightharpoonup> string list"
  Body :: "string option"

record APIKey =
  key :: string
  passphrase :: string
  secret :: string
  url :: "url_URL option"

datatype auth_error = ErrURLRequired | ErrDecodingSecret

text \<open>
  What the transport takes from outside the repository: the clock
  (\<^verbatim>\<open>time.Now().Unix()\<close>), \<^verbatim>\<open>(*url.URL).String\<close>, the standard base64 encoding
  (decoding fails on a malformed string) and HMAC with SHA-256 (key first, then the
  message).
\<close>

record env =
  now_Unix :: int
  URL_String :: "url_URL \<Rightarrow> string"
  base64_DecodeString :: "string \<Rightarrow> string option"
  base64_EncodeToString :: "string \<Rightarrow> string"
  hmac_sha256 :: "string \<Rightarrow> string \<Rightarrow> string"

text \<open>\<^verbatim>\<open>strconv.FormatInt(n, 10)\<close>: the decimal digits, after a minus sign if negative.\<close>

fun decimalDigits :: "nat \<Rightarrow> string" where
  "decimalDigits n =
     (if n < 10 then [''0123456789'' ! n]
      else decimalDigits (n div 10) @ [''0123456789'' ! (n mod 10)])"

declare decimalDigits.simps [simp del]

definition strconv_FormatInt10 :: "int \<Rightarrow> string" where
  "strconv_FormatInt10 n =
     (if n < 0 then CHR ''-'' # decimalDigits (nat (- n)) else decimalDigits (nat n))"

text \<open>\<^verbatim>\<open>strings.Replace(s, old, new, 1)\<close>: the first occurrence only.\<close>

fun strings_Replace1 :: "string \<Rightarrow> string \<Rightarrow> string \<Rightarrow> string" where
  "strings_Replace1 [] old new = (if old = [] then new else [])"
| "strings_Replace1 (c # cs) old new =
     (if take (length old) (c # cs) = old then new @ drop (length old) (c # cs)
      else c # strings_Replace1 cs old new)"

text \<open>
  \<^verbatim>\<open>Header.Set\<close> and \<^verbatim>\<open>Header.Add\<close> store under the canonical form of the key
  (\<^verbatim>\<open>Content-Type\<close> for \<^verbatim>\<open>content-type\<close>); the callers below pass that form.
  \<open>Header_Values h k\<close> is \<^verbatim>\<open>h[k]\<close>, empty for a key that is not there.
\<close>

definition Header_Set :: "(string \<rightharpoonup> string list) \<Rightarrow> string \<Rightarrow> string \<Rightarrow> (string \<rightharpoonup> string list)" where
  "Header_Set h k v = h(k \<mapsto> [v])"

definition Header_Values :: "(string \<rightharpoonup> string list) \<Rightarrow> string \<Rightarrow> string list" where
  "Header_Values h k = (case h k of None \<Rightarrow> [] | Some vs \<Rightarrow> vs)"

definition Header_Add :: "(string \<rightharpoonup> string list) \<Rightarrow> string \<Rightarrow> string \<Rightarrow> (string \<rightharpoonup> string list)" where
  "Header_Add h k v = h(k \<mapsto> Header_Values h k @ [v])"

definition generateSig :: "env \<Rightarrow> APIKey \<Rightarrow> string \<Rightarrow> auth_error + string" where
  "generateSig e auth message =
     (case base64_DecodeString e (secret auth) of
        None \<Rightarrow> Inl ErrDecodingSecret
      | Some k \<Rightarrow> Inr (base64_EncodeToString e (hmac_sha256 e k message)))"

text \<open>
  \<^verbatim>\<open>parsebytes\<close> reads the body to its end and puts a new body with the bytes read in
  its place; it returns the request with them.
\<close>

definition parsebytes :: "request \<Rightarrow> request \<times> string" where
  "parsebytes req =
     (case Body req of
        None \<Rightarrow> (req, [])
      | Some body \<Rightarrow> (req\<lparr>Body := Some body\<rparr>, body))"

text \<open>
  \<^verbatim>\<open>generageMsg\<close> runs after the check that \<^verbatim>\<open>auth.url\<close> is not \<^verbatim>\<open>nil\<close>; \<open>u\<close> is the
  URL that the check found.
\<close>

definition generageMsg :: "env \<Rightarrow> url_URL \<Rightarrow> request \<Rightarrow> string \<Rightarrow> request \<times> string" where
  "generageMsg e u req timestamp =
     (let postAuthority = strings_Replace1 (URL_String e (URL req)) (URL_String e u) [] in
      case parsebytes req of
        (req, body) \<Rightarrow> (req, timestamp @ Method req @ postAuthority @ body))"

text \<open>
  \<^verbatim>\<open>RoundTrip\<close> up to the call of \<^verbatim>\<open>http.DefaultTransport.RoundTrip\<close>: an error, or the
  request as it is handed to that transport.
\<close>

definition RoundTrip :: "env \<Rightarrow> APIKey \<Rightarrow> request \<Rightarrow> auth_error + request" where
  "RoundTrip e auth req =
     (case url auth of
        None \<Rightarrow> Inl ErrURLRequired
      | Some u \<Rightarrow>
          let timestamp = strconv_FormatInt10 (now_Unix e) in
          case generageMsg e u req timestamp of
            (req, msg) \<Rightarrow>
              (case generateSig e auth msg of
                 Inl err \<Rightarrow> Inl err
               | Inr sig \<Rightarrow>
                   let req = req\<lparr>URL := (URL req)\<lparr>Scheme := Scheme u\<rparr>\<rparr>;
                       req = req\<lparr>URL := (URL req)\<lparr>Host := Host u\<rparr>\<rparr>;
                       req = req\<lparr>Header := Header_Set (Header req) ''Content-Type'' ''application/json''\<rparr>;
                       req = req\<lparr>Header := Header_Add (Header req) ''Cb-Access-Key'' (key auth)\<rparr>;
                       req = req\<lparr>Header := Header_Add (Header req) ''Cb-Access-Passphrase'' (passphrase auth)\<rparr>;
                       req = req\<lparr>Header := Header_Add (Header req) ''Cb-Access-Sign'' sig\<rparr>;
                       req = req\<lparr>Header := Header_Add (Header req) ''Cb-Access-Timestamp'' timestamp\<rparr>
                   in Inr req))"

text \<open>
  An environment and a request to run the transport on: the clock of 1 January 2023,
  a URL printed as scheme, host and path, and stand-ins for the encoding and the digest
  (the secret is its own decoding, the digest is the key followed by the message).
\<close>

definition env_example :: env where
  "env_example =
     \<lparr>now_Unix = 1672531200,
      URL_String = (\<lambda>u. Scheme u @ ''://'' @ Host u @ Path u),
      base64_DecodeString = Some,
      base64_EncodeToString = (\<lambda>s. s),
      hmac_sha256 = (\<lambda>k m. k @ m)\<rparr>"

definition auth_example :: APIKey where
  "auth_example =
     \<lparr>key = ''id'', passphrase = ''pass'', secret = ''s3'',
      url = Some \<lparr>Scheme = ''https'', Opaque = [], Host = ''api.example.com'', Path = [],
                  RawQuery = [], Fragment = []\<rparr>\<rparr>"

definition req_example :: request where
  "req_example =
     \<lparr>Method = ''GET'',
      URL = \<lparr>Scheme = ''http'', Opaque = [], Host = ''localhost'', Path = ''/accounts'',
             RawQuery = [], Fragment = []\<rparr>,
      Header = [''Accept'' \<mapsto> [''text/plain'']],
      Body = None\<rparr>"

section \<open>Headers to run the parser on\<close>

text \<open>
  Thirteen media ranges without parameters: twelve with a wildcard type, which tie on
  every key of \<^verbatim>\<open>Less\<close>, then one with a specific type, which ranks above them.
  \<open>accepted13\<close> is the slice before the sort, in the order of the header.
\<close>

definition header13 :: string where
  "header13 = ''*/a,*/b,*/c,*/d,*/e,*/f,*/g,*/h,*/i,*/j,*/k,*/l,m/m''"

definition plainEntry :: "string \<Rightarrow> string \<Rightarrow> accept" where
  "plainEntry t s = \<lparr>typ' = t, subtype = s, qualityFactor = Finite 1, extensions = []\<rparr>"

definition accepted13 :: AcceptSlice where
  "accepted13 =
     [plainEntry ''*'' ''a'', plainEntry ''*'' ''b'', plainEntry ''*'' ''c'',
      plainEntry ''*'' ''d'', plainEntry ''*'' ''e'', plainEntry ''*'' ''f'',
      plainEntry ''*'' ''g'', plainEntry ''*'' ''h'', plainEntry ''*'' ''i'',
      plainEntry ''*'' ''j'', plainEntry ''*'' ''k'', plainEntry ''*'' ''l'',
      plainEntry ''m'' ''m'']"

definition ranked13 :: AcceptSlice where
  "ranked13 =
     [plainEntry ''m'' ''m'', plainEntry ''*'' ''g'', plainEntry ''*'' ''c'',
      plainEntry ''*'' ''d'', plainEntry ''*'' ''e'', plainEntry ''*'' ''f'',
      plainEntry ''*'' ''a'', plainEntry ''*'' ''h'', plainEntry ''*'' ''i'',
      plainEntry ''*'' ''j'', plainEntry ''*'' ''k'', plainEntry ''*'' ''l'',
      plainEntry ''*'' ''b'']"

text \<open>The request that \<open>RoundTrip\<close> hands on when run on \<open>req_example\<close>.\<close>

definition forwarded_example :: request where
  "forwarded_example =
     \<lparr>Method = ''GET'',
      URL = \<lparr>Scheme = ''https'', Opaque = [], Host = ''api.example.com'', Path = ''/accounts'',
             RawQuery = [], Fragment = []\<rparr>,
      Header = [''Accept'' \<mapsto> [''text/plain''],
                ''Content-Type'' \<mapsto> [''application/json''],
                ''Cb-Access-Key'' \<mapsto> [''id''],
                ''Cb-Access-Passphrase'' \<mapsto> [''pass''],
                ''Cb-Access-Sign'' \<mapsto> [''s31672531200GEThttp://localhost/accounts''],
                ''Cb-Access-Timestamp'' \<mapsto> [''1672531200'']],
      Body = None\<rparr>"

section \<open>Properties of the media-range parser\<close>

subsection \<open>\<^verbatim>\<open>strings.Split\<close>\<close>


lemma strings_Split_Nil: "strings_Split [] sep = ['''']"
  by (simp add: strings_Split.simps)

lemma strings_Split_sep: "strings_Split (sep # s) sep = [] # strings_Split s sep"
  by (subst strings_Split.simps) simp

lemma strings_Split_not_Nil: "strings_Split s sep \<noteq> []"
  by (subst strings_Split.simps) (simp split: list.split)

lemma strings_Split_other:
  "c \<noteq> sep \<Longrightarrow>
   strings_Split (c # s) sep = (c # hd (strings_Split s sep)) # tl (strings_Split s sep)"
proof (cases "dropWhile (\<lambda>x. x \<noteq> sep) s")
  case Nil
  then have "strings_Split s sep = [s]"
    by (subst strings_Split.simps) (simp del: dropWhile_eq_Nil_conv)
  moreover from Nil have "strings_Split (c # s) sep = [c # s]" if "c \<noteq> sep"
    using that by (subst strings_Split.simps) (simp del: dropWhile_eq_Nil_conv)
  ultimately show "c \<noteq> sep \<Longrightarrow> ?thesis" by simp
next
  case (Cons x rest)
  then have "strings_Split s sep = takeWhile (\<lambda>x. x \<noteq> sep) s # strings_Split rest sep"
    by (subst strings_Split.simps) simp
  moreover from Cons have
    "strings_Split (c # s) sep = (c # takeWhile (\<lambda>x. x \<noteq> sep) s) # strings_Split rest sep"
    if "c \<noteq> sep"
    using that by (subst strings_Split.simps) simp
  ultimately show "c \<noteq> sep \<Longrightarrow> ?thesis" by simp
qed

lemma strings_Split_append:
  "strings_Split (a @ sep # b) sep = strings_Split a sep @ strings_Split b sep"
proof (induction a)
  case Nil
  show ?case by (simp add: strings_Split_Nil strings_Split_sep)
next
  case (Cons c a)
  show ?case
  proof (cases "c = sep")
    case True
    then show ?thesis using Cons.IH by (simp add: strings_Split_sep)
  next
    case False
    then show ?thesis
      using Cons.IH strings_Split_not_Nil [of a sep]
      by (simp add: strings_Split_other)
  qed
qed

lemma strings_Split_single: "sep \<notin> set s \<Longrightarrow> strings_Split s sep = [s]"
  by (induction s) (auto simp: strings_Split_Nil strings_Split_other)


lemma parseMediaRange_cases:
  obtains (malformed) rp ts e where
      "parseMediaRange m = Inr (rp, ts, Some e)" "malformedTypeSubtype m"
  | (wellformed) rp0 rps t0 t1 ts where
      "parseMediaRange m = Inr (rp0 # rps, t0 # t1 # ts, None)"
      "strings_Split m CHR '';'' = rp0 # rps" "t0 \<noteq> []" "t1 \<noteq> []"
      "\<not> malformedTypeSubtype m"
proof -
  obtain rp0 rps where rp: "strings_Split m CHR '';'' = rp0 # rps"
    using strings_Split_not_Nil [of m "CHR '';''"] by (cases "strings_Split m CHR '';''") auto
  obtain s0 ss where ts: "strings_Split rp0 CHR ''/'' = s0 # ss"
    using strings_Split_not_Nil [of rp0 "CHR ''/''"] by (cases "strings_Split rp0 CHR ''/''") auto
  show thesis
  proof (cases "length (strings_Split rp0 CHR ''/'') > 2")
    case True
    with rp have "parseMediaRange m =
        Inr (rp0 # rps, strings_Split rp0 CHR ''/'', Some (errInvalidTypeSubtype rp0))"
      by (simp add: parseMediaRange_def)
    moreover from True rp have "malformedTypeSubtype m"
      by (simp add: malformedTypeSubtype_def)
    ultimately show thesis by (rule malformed)
  next
    case False
    obtain s1 ss' where app: "ss @ [''*''] = s1 # ss'"
      by (cases ss) auto
    define t0 where "t0 = (if strings_TrimSpace s0 = [] then ''*'' else strings_TrimSpace s0)"
    define t1 where "t1 = (if strings_TrimSpace s1 = [] then ''*'' else strings_TrimSpace s1)"
    from False rp ts app have "parseMediaRange m = Inr (rp0 # rps, t0 # t1 # ss', None)"
      by (simp add: parseMediaRange_def Let_def t0_def t1_def)
    moreover have "t0 \<noteq> []" "t1 \<noteq> []"
      by (simp_all add: t0_def t1_def)
    moreover from False rp have "\<not> malformedTypeSubtype m"
      by (simp add: malformedTypeSubtype_def)
    ultimately show thesis using rp by (intro wellformed)
  qed
qed

lemma acceptMediaRange_malformed:
  "malformedTypeSubtype m \<Longrightarrow> acceptMediaRange pf m accepted = Inr accepted"
  by (cases m rule: parseMediaRange_cases) (simp_all add: acceptMediaRange_def)

lemma acceptMediaRange_append:
  "acceptMediaRange pf m accepted = Inr (accepted @ mediaRangeEntries pf m)"
proof (cases m rule: parseMediaRange_cases)
  case (malformed rp ts e)
  then show ?thesis by (simp add: acceptMediaRange_def mediaRangeEntries_def)
next
  case (wellformed rp0 rps t0 t1 ts)
  then show ?thesis
    by (simp add: acceptMediaRange_def mediaRangeEntries_def Let_def split: prod.split)
qed

lemma acceptMediaRanges_append:
  "acceptMediaRanges pf ms accepted = Inr (accepted @ concat (map (mediaRangeEntries pf) ms))"
  by (induction ms arbitrary: accepted) (simp_all add: acceptMediaRange_append)

lemma parseAcceptHeader_eq:
  "parseAcceptHeader pf srt header =
     Inr (srt (concat (map (mediaRangeEntries pf) (strings_Split header CHR '',''))))"
  by (simp add: parseAcceptHeader_def acceptMediaRanges_append)


lemma mediaRangeEntries_malformed: "malformedTypeSubtype m \<Longrightarrow> mediaRangeEntries pf m = []"
  using acceptMediaRange_malformed [of m pf "[]"] by (simp add: mediaRangeEntries_def)

lemma clamp_quality:
  "\<not> f64_less qval (Finite 0) \<Longrightarrow>
   (if f64_greater qval (Finite 1) then Finite 1 else qval) = NaN \<or>
   in_unit_interval (if f64_greater qval (Finite 1) then Finite 1 else qval)"
  by (cases qval) (auto simp: f64_greater_def)

lemma validateParams_invariant:
  "validateParams pf vs acc = (acc', ok) \<Longrightarrow>
   qualityFactor acc = NaN \<or> in_unit_interval (qualityFactor acc) \<Longrightarrow>
   typ' acc' = typ' acc \<and> subtype acc' = subtype acc \<and>
   (qualityFactor acc' = NaN \<or> in_unit_interval (qualityFactor acc'))"
proof (induction vs arbitrary: acc)
  case Nil
  then show ?case by simp
next
  case (Cons v vs)
  show ?case
  proof (cases "length (strings_SplitN2 v CHR ''='') \<noteq> 2")
    case True
    with Cons.prems show ?thesis by simp
  next
    case len: False
    let ?val = "strings_TrimSpace (strings_SplitN2 v CHR ''='' ! 1)"
    let ?name = "strings_TrimSpace (strings_SplitN2 v CHR ''='' ! 0)"
    show ?thesis
    proof (cases "?name = ''q''")
      case q: True
      show ?thesis
      proof (cases "pf ?val")
        case None
        with len q Cons.prems show ?thesis by (simp add: Let_def)
      next
        case (Some qval)
        show ?thesis
        proof (cases "f64_less qval (Finite 0)")
          case True
          with len q Some Cons.prems show ?thesis by (simp add: Let_def)
        next
          case False
          let ?q = "if f64_greater qval (Finite 1) then Finite 1 else qval"
          from len q Some False Cons.prems(1)
          have "validateParams pf vs (acc\<lparr>qualityFactor := ?q\<rparr>) = (acc', ok)"
            by (simp add: Let_def)
          moreover have "qualityFactor (acc\<lparr>qualityFactor := ?q\<rparr>) = NaN \<or>
              in_unit_interval (qualityFactor (acc\<lparr>qualityFactor := ?q\<rparr>))"
            using clamp_quality [OF False] by simp
          ultimately show ?thesis
            using Cons.IH [of "acc\<lparr>qualityFactor := ?q\<rparr>"] by simp
        qed
      qed
    next
      case False
      with len Cons.prems(1)
      have "validateParams pf vs (acc\<lparr>extensions := AList.update ?name ?val (extensions acc)\<rparr>)
          = (acc', ok)"
        by (simp add: Let_def)
      then show ?thesis
        using Cons.IH [of "acc\<lparr>extensions := AList.update ?name ?val (extensions acc)\<rparr>"]
          Cons.prems(2)
        by simp
    qed
  qed
qed

lemma mediaRangeEntries_invariant:
  assumes "acc \<in> set (mediaRangeEntries pf m)"
  shows "typ' acc \<noteq> [] \<and> subtype acc \<noteq> [] \<and>
         (qualityFactor acc = NaN \<or> in_unit_interval (qualityFactor acc))"
proof (cases m rule: parseMediaRange_cases)
  case (malformed rp ts e)
  with assms show ?thesis by (simp add: mediaRangeEntries_malformed)
next
  case (wellformed rp0 rps t0 t1 ts)
  let ?new = "\<lparr>typ' = t0, subtype = t1, qualityFactor = Finite 1, extensions = []\<rparr>"
  show ?thesis
  proof (cases "rps = []")
    case True
    with wellformed assms show ?thesis
      by (simp add: mediaRangeEntries_def acceptMediaRange_def)
  next
    case False
    obtain acc' ok where v: "validateParams pf rps ?new = (acc', ok)"
      by (cases "validateParams pf rps ?new") auto
    with wellformed False assms have "acc = acc'"
      by (simp add: mediaRangeEntries_def acceptMediaRange_def split: if_splits)
    with validateParams_invariant [OF v] wellformed show ?thesis by simp
  qed
qed

lemma parseAcceptHeader_entries:
  assumes "parseAcceptHeader pf srt header = Inr accepted"
    and "set (srt (concat (map (mediaRangeEntries pf) (strings_Split header CHR '','')))) \<subseteq>
         set (concat (map (mediaRangeEntries pf) (strings_Split header CHR '','')))"
    and "acc \<in> set accepted"
  shows "typ' acc \<noteq> [] \<and> subtype acc \<noteq> [] \<and>
         (qualityFactor acc = NaN \<or> in_unit_interval (qualityFactor acc))"
proof -
  from assms have "acc \<in> set (concat (map (mediaRangeEntries pf) (strings_Split header CHR '','')))"
    by (auto simp: parseAcceptHeader_eq)
  then obtain m where "acc \<in> set (mediaRangeEntries pf m)" by auto
  then show ?thesis by (rule mediaRangeEntries_invariant)
qed

subsection \<open>What the promise of \<^verbatim>\<open>sort.Sort\<close> fixes on short slices\<close>

lemma sort_Sort_post_Nil: "sort_Sort_post [] after \<Longrightarrow> after = []"
  by (simp add: sort_Sort_post_def)

lemma sort_Sort_post_single: "sort_Sort_post [x] after \<Longrightarrow> after = [x]"
  by (simp add: sort_Sort_post_def)

lemma sort_Sort_post_pair:
  assumes "sort_Sort_post [x, y] after" and "accept_less x y"
  shows "after = [x, y]"
proof -
  from assms(1) have m: "mset after = mset [x, y]"
    and s: "sorted_wrt (\<lambda>x y. \<not> accept_less y x) after"
    by (simp_all add: sort_Sort_post_def)
  from m have "length after = 2"
    using mset_eq_length by fastforce
  then obtain u v where uv: "after = [u, v]"
    by (metis (no_types, opaque_lifting) One_nat_def Suc_1 length_0_conv length_Suc_conv)
  with m have "(u = x \<and> v = y) \<or> (u = y \<and> v = x)"
    by (auto simp: add_eq_conv_ex)
  with s uv assms(2) show ?thesis by auto
qed

text \<open>The promise leaves the order of two entries that tie open: both orders keep it.\<close>

lemma sort_Sort_post_tie:
  "sort_Sort_post [plainEntry ''a'' ''b'', plainEntry ''c'' ''d'']
     [plainEntry ''a'' ''b'', plainEntry ''c'' ''d'']"
  "sort_Sort_post [plainEntry ''a'' ''b'', plainEntry ''c'' ''d'']
     [plainEntry ''c'' ''d'', plainEntry ''a'' ''b'']"
  by code_simp+

subsection \<open>The media ranges of the examples\<close>

lemma entries_empty_range:
  "mediaRangeEntries pf [] =
     [\<lparr>typ' = ''*'', subtype = ''*'', qualityFactor = Finite 1, extensions = []\<rparr>]"
  by code_simp

lemma entries_Application_json:
  "mediaRangeEntries pf ''Application/json'' =
     [\<lparr>typ' = ''Application'', subtype = ''json'', qualityFactor = Finite 1, extensions = []\<rparr>]"
  by code_simp

lemma split_two_ranges:
  "strings_Split ''application/xml;q=0.9, application/json;q=0.8'' CHR '','' =
     [''application/xml;q=0.9'', '' application/json;q=0.8'']"
  by code_simp

lemma split_no_comma:
  "strings_Split [] CHR '','' = ['''']"
  "strings_Split ''Application/json'' CHR '','' = [''Application/json'']"
  "strings_Split ''application/json;q=1.5'' CHR '','' = [''application/json;q=1.5'']"
  by code_simp+

lemma parse_xml:
  "parseMediaRange ''application/xml;q=0.9'' =
     Inr ([''application/xml'', ''q=0.9''], [''application'', ''xml'', ''*''], None)"
  by code_simp

lemma parse_json_08:
  "parseMediaRange '' application/json;q=0.8'' =
     Inr (['' application/json'', ''q=0.8''], [''application'', ''json'', ''*''], None)"
  by code_simp

lemma parse_json_15:
  "parseMediaRange ''application/json;q=1.5'' =
     Inr ([''application/json'', ''q=1.5''], [''application'', ''json'', ''*''], None)"
  by code_simp

lemma split_params:
  "strings_SplitN2 ''q=0.9'' CHR ''='' = [''q'', ''0.9'']"
  "strings_SplitN2 ''q=0.8'' CHR ''='' = [''q'', ''0.8'']"
  "strings_SplitN2 ''q=1.5'' CHR ''='' = [''q'', ''1.5'']"
  by code_simp+

lemma trim_params:
  "strings_TrimSpace ''q'' = ''q''"
  "strings_TrimSpace ''0.9'' = ''0.9''"
  "strings_TrimSpace ''0.8'' = ''0.8''"
  "strings_TrimSpace ''1.5'' = ''1.5''"
  by code_simp+

lemma greater_one_not_negative: "f64_greater q (Finite 1) \<Longrightarrow> \<not> f64_less q (Finite 0)"
  by (cases q) (auto simp: f64_greater_def)

lemma entries_xml_q:
  "pf ''0.9'' = Some (Finite a) \<Longrightarrow> 0 \<le> a \<Longrightarrow> a \<le> 1 \<Longrightarrow>
   mediaRangeEntries pf ''application/xml;q=0.9'' =
     [\<lparr>typ' = ''application'', subtype = ''xml'', qualityFactor = Finite a, extensions = []\<rparr>]"
  by (simp add: mediaRangeEntries_def acceptMediaRange_def parse_xml split_params trim_params
      f64_greater_def)

lemma entries_json_q:
  "pf ''0.8'' = Some (Finite b) \<Longrightarrow> 0 \<le> b \<Longrightarrow> b \<le> 1 \<Longrightarrow>
   mediaRangeEntries pf '' application/json;q=0.8'' =
     [\<lparr>typ' = ''application'', subtype = ''json'', qualityFactor = Finite b, extensions = []\<rparr>]"
  by (simp add: mediaRangeEntries_def acceptMediaRange_def parse_json_08 split_params trim_params
      f64_greater_def)

lemma entries_json_clamped:
  "pf ''1.5'' = Some q \<Longrightarrow> f64_greater q (Finite 1) \<Longrightarrow>
   mediaRangeEntries pf ''application/json;q=1.5'' =
     [\<lparr>typ' = ''application'', subtype = ''json'', qualityFactor = Finite 1, extensions = []\<rparr>]"
  by (simp add: mediaRangeEntries_def acceptMediaRange_def parse_json_15 split_params trim_params
      greater_one_not_negative)

lemma accepted13_eq:
  "acceptMediaRanges pf (strings_Split header13 CHR '','') [] = Inr accepted13"
  by code_simp

lemma sort_Sort_accepted13: "sort_Sort accepted13 = Some ranked13"
  by code_simp

subsection \<open>The signing transport\<close>

lemma RoundTrip_no_url: "url auth = None \<Longrightarrow> RoundTrip e auth req = Inl ErrURLRequired"
  by (simp add: RoundTrip_def)

lemma RoundTrip_bad_secret:
  "url auth = Some u \<Longrightarrow> base64_DecodeString e (secret auth) = None \<Longrightarrow>
   RoundTrip e auth req = Inl ErrDecodingSecret"
  by (simp add: RoundTrip_def generageMsg_def generateSig_def Let_def split: prod.split)

lemma Header_Set_apply: "Header_Set h k v k' = (if k' = k then Some [v] else h k')"
  by (simp add: Header_Set_def)

lemma Header_Add_apply:
  "Header_Add h k v k' = (if k' = k then Some (Header_Values h k @ [v]) else h k')"
  by (simp add: Header_Add_def)

lemma Header_Values_Add:
  "Header_Values (Header_Add h k v) k' = (if k' = k then Header_Values h k @ [v] else Header_Values h k')"
  by (simp add: Header_Values_def Header_Add_apply)

lemma Header_Values_Set:
  "Header_Values (Header_Set h k v) k' = (if k' = k then [v] else Header_Values h k')"
  by (simp add: Header_Values_def Header_Set_apply)

lemma RoundTrip_eq:
  assumes "url auth = Some u" and "base64_DecodeString e (secret auth) = Some k"
  shows "RoundTrip e auth req =
     Inr (req\<lparr>URL := (URL req)\<lparr>Scheme := Scheme u, Host := Host u\<rparr>,
              Header :=
                Header_Add (Header_Add (Header_Add (Header_Add
                  (Header_Set (Header req) ''Content-Type'' ''application/json'')
                  ''Cb-Access-Key'' (key auth))
                  ''Cb-Access-Passphrase'' (passphrase auth))
                  ''Cb-Access-Sign''
                  (base64_EncodeToString e (hmac_sha256 e k
                     (strconv_FormatInt10 (now_Unix e) @ Method req @
                      strings_Replace1 (URL_String e (URL req)) (URL_String e u) [] @
                      (case Body req of None \<Rightarrow> [] | Some body \<Rightarrow> body)))))
                  ''Cb-Access-Timestamp'' (strconv_FormatInt10 (now_Unix e))\<rparr>)"
proof (cases "Body req")
  case None
  with assms show ?thesis
    by (simp add: RoundTrip_def generageMsg_def parsebytes_def generateSig_def Let_def)
next
  case (Some body)
  then have "req\<lparr>Body := Some body\<rparr> = req"
    by simp
  with Some assms show ?thesis
    by (simp add: RoundTrip_def generageMsg_def parsebytes_def generateSig_def Let_def)
qed

section \<open>The claims of the specification\<close>

subsection \<open>Ranking\<close>

text \<open>
  Claim C1 says that two entries that tie on quality factor, type specificity, subtype
  specificity and number of extensions keep the order of the header in the result of
  \<^verbatim>\<open>parseAcceptHeader\<close>, and the comment above the function says the same. The
  function ranks with \<^verbatim>\<open>sort.Sort\<close>, which is not stable. On the header of thirteen
  media ranges \<open>header13\<close> the library's sort (Go 1.19 and later) moves the seventh
  range, \<^verbatim>\<open>*/g\<close>, in front of the third, \<^verbatim>\<open>*/c\<close>, although neither is
  \<^verbatim>\<open>Less\<close> than the other: the code breaks claim C1 there.
\<close>

theorem ties_reordered:
  "parseAcceptHeader pf go_sort header13 = Inr ranked13 \<and>
   sort_Sort accepted13 = Some ranked13 \<and>
   accepted13 ! 2 = plainEntry ''*'' ''c'' \<and> accepted13 ! 6 = plainEntry ''*'' ''g'' \<and>
   \<not> accept_less (plainEntry ''*'' ''c'') (plainEntry ''*'' ''g'') \<and>
   \<not> accept_less (plainEntry ''*'' ''g'') (plainEntry ''*'' ''c'') \<and>
   ranked13 ! 1 = plainEntry ''*'' ''g'' \<and> ranked13 ! 2 = plainEntry ''*'' ''c''"
proof -
  have "parseAcceptHeader pf go_sort header13 = Inr ranked13"
    by (simp add: parseAcceptHeader_def accepted13_eq go_sort_def sort_Sort_accepted13)
  moreover have "accepted13 ! 2 = plainEntry ''*'' ''c''" "accepted13 ! 6 = plainEntry ''*'' ''g''"
    "ranked13 ! 1 = plainEntry ''*'' ''g''" "ranked13 ! 2 = plainEntry ''*'' ''c''"
    by (simp_all add: accepted13_def ranked13_def)
  moreover have "\<not> accept_less (plainEntry ''*'' ''c'') (plainEntry ''*'' ''g'')"
    "\<not> accept_less (plainEntry ''*'' ''g'') (plainEntry ''*'' ''c'')"
    by (simp_all add: accept_less_def plainEntry_def f64_greater_def)
  ultimately show ?thesis
    using sort_Sort_accepted13 by simp
qed

subsection \<open>Quality factors\<close>

text \<open>
  Claim C2 says that for the header \<^verbatim>\<open>application/json;q=-1\<close> the entry is dropped
  and the result is \<^verbatim>\<open>Unknown\<close>. The entry is dropped, which leaves the slice empty,
  and \<^verbatim>\<open>bestFitDecodeType\<close> answers an empty slice with \<^verbatim>\<open>decodeTypeJSON\<close>: the
  code breaks claim C2 on this header, and with it the comment above the function
  (a header that is set and matches nothing gives \<^verbatim>\<open>decodeTypeUnknown\<close>).
\<close>

theorem negative_q_gives_JSON:
  "parseAcceptHeader ParseFloat_plain go_sort ''application/json;q=-1'' = Inr [] \<and>
   bestFitDecodeType ParseFloat_plain go_sort ''application/json;q=-1'' = Inr decodeTypeJSON"
  by code_simp

text \<open>
  Claim C8: for the header \<^verbatim>\<open>application/json;q=1.5\<close>, where the parsed quality is
  greater than 1, the entry stays, its quality factor is 1, and the result is
  \<^verbatim>\<open>decodeTypeJSON\<close>.
\<close>

theorem q_above_one_clamped:
  assumes "pf ''1.5'' = Some q" and "f64_greater q (Finite 1)"
    and "sort_Sort_post [plainEntry ''application'' ''json'']
           (srt [plainEntry ''application'' ''json''])"
  shows "parseAcceptHeader pf srt ''application/json;q=1.5'' =
           Inr [\<lparr>typ' = ''application'', subtype = ''json'', qualityFactor = Finite 1,
                  extensions = []\<rparr>] \<and>
         bestFitDecodeType pf srt ''application/json;q=1.5'' = Inr decodeTypeJSON"
proof -
  from assms(3) have "srt [plainEntry ''application'' ''json''] = [plainEntry ''application'' ''json'']"
    by (rule sort_Sort_post_single)
  with assms(1,2) have "parseAcceptHeader pf srt ''application/json;q=1.5'' =
      Inr [plainEntry ''application'' ''json'']"
    by (simp add: parseAcceptHeader_eq split_no_comma entries_json_clamped plainEntry_def)
  then show ?thesis
    by (simp add: bestFitDecodeType_def plainEntry_def)
qed

text \<open>
  Claim C8 at \<open>ParseFloat_plain\<close> and \<open>go_sort\<close>.
\<close>

theorem q_above_one_clamped_witness:
  "ParseFloat_plain ''1.5'' = Some (Finite (3 / 2)) \<and>
   f64_greater (Finite (3 / 2)) (Finite 1) \<and>
   sort_Sort_post [plainEntry ''application'' ''json'']
     (go_sort [plainEntry ''application'' ''json'']) \<and>
   parseAcceptHeader ParseFloat_plain go_sort ''application/json;q=1.5'' =
     Inr [\<lparr>typ' = ''application'', subtype = ''json'', qualityFactor = Finite 1,
            extensions = []\<rparr>] \<and>
   bestFitDecodeType ParseFloat_plain go_sort ''application/json;q=1.5'' = Inr decodeTypeJSON"
proof -
  have pf: "ParseFloat_plain ''1.5'' = Some (Finite (3 / 2))"
    by code_simp
  have gt: "f64_greater (Finite (3 / 2)) (Finite 1)"
    by (simp add: f64_greater_def)
  have post: "sort_Sort_post [plainEntry ''application'' ''json'']
     (go_sort [plainEntry ''application'' ''json''])"
    by code_simp
  show ?thesis
    using q_above_one_clamped [where pf = ParseFloat_plain and srt = go_sort, OF pf gt post]
      pf gt post
    by simp
qed

text \<open>
  Claim C6 says that every entry that \<^verbatim>\<open>parseAcceptHeader\<close> returns has a type and a
  subtype that are not empty and a quality factor between 0 and 1. The first part holds
  (\<open>parseAcceptHeader_entries\<close>). The second fails for a quality that parses to
  not-a-number, which is neither less than 0 nor greater than 1 and is stored as it is:
  on the header \<^verbatim>\<open>a/b;q=NaN\<close> the code breaks claim C6.
\<close>

theorem NaN_quality_kept:
  "parseAcceptHeader ParseFloat_plain go_sort ''a/b;q=NaN'' =
     Inr [\<lparr>typ' = ''a'', subtype = ''b'', qualityFactor = NaN, extensions = []\<rparr>] \<and>
   \<not> in_unit_interval NaN"
  by code_simp

subsection \<open>Selection\<close>

text \<open>
  Claim C4: for the header \<^verbatim>\<open>application/xml;q=0.9, application/json;q=0.8\<close> the
  entry of \<^verbatim>\<open>application/xml\<close> ranks first, it matches nothing, and the result is
  \<^verbatim>\<open>decodeTypeJSON\<close>, from the entry behind it. The two qualities are what the parser
  returns for \<^verbatim>\<open>0.9\<close> and \<^verbatim>\<open>0.8\<close>, the second below the first, and the sort keeps
  its promise on the two entries.
\<close>

theorem first_acceptable_match:
  assumes "pf ''0.9'' = Some (Finite a)" and "pf ''0.8'' = Some (Finite b)"
    and "0 \<le> b" and "b < a" and "a \<le> 1"
    and "sort_Sort_post
           [\<lparr>typ' = ''application'', subtype = ''xml'', qualityFactor = Finite a, extensions = []\<rparr>,
            \<lparr>typ' = ''application'', subtype = ''json'', qualityFactor = Finite b, extensions = []\<rparr>]
           (srt
             [\<lparr>typ' = ''application'', subtype = ''xml'', qualityFactor = Finite a, extensions = []\<rparr>,
              \<lparr>typ' = ''application'', subtype = ''json'', qualityFactor = Finite b, extensions = []\<rparr>])"
  shows "parseAcceptHeader pf srt ''application/xml;q=0.9, application/json;q=0.8'' =
           Inr [\<lparr>typ' = ''application'', subtype = ''xml'', qualityFactor = Finite a, extensions = []\<rparr>,
                \<lparr>typ' = ''application'', subtype = ''json'', qualityFactor = Finite b, extensions = []\<rparr>] \<and>
         firstFit [\<lparr>typ' = ''application'', subtype = ''xml'', qualityFactor = Finite a, extensions = []\<rparr>] =
           decodeTypeUnknown \<and>
         bestFitDecodeType pf srt ''application/xml;q=0.9, application/json;q=0.8'' =
           Inr decodeTypeJSON"
proof -
  let ?xml = "\<lparr>typ' = ''application'', subtype = ''xml'', qualityFactor = Finite a, extensions = []\<rparr>"
  let ?json = "\<lparr>typ' = ''application'', subtype = ''json'', qualityFactor = Finite b, extensions = []\<rparr>"
  from assms have "mediaRangeEntries pf ''application/xml;q=0.9'' = [?xml]"
    and "mediaRangeEntries pf '' application/json;q=0.8'' = [?json]"
    by (simp_all add: entries_xml_q entries_json_q)
  then have entries:
    "concat (map (mediaRangeEntries pf)
       (strings_Split ''application/xml;q=0.9, application/json;q=0.8'' CHR '','')) = [?xml, ?json]"
    by (simp add: split_two_ranges)
  have "accept_less ?xml ?json"
    using assms(4) by (simp add: accept_less_def f64_greater_def)
  with assms(6) have "srt [?xml, ?json] = [?xml, ?json]"
    by (rule sort_Sort_post_pair)
  with entries have "parseAcceptHeader pf srt ''application/xml;q=0.9, application/json;q=0.8'' =
      Inr [?xml, ?json]"
    by (simp only: parseAcceptHeader_eq)
  then show ?thesis
    by (simp add: bestFitDecodeType_def)
qed

text \<open>
  Claim C4 at \<open>ParseFloat_plain\<close> and \<open>go_sort\<close>.
\<close>

theorem first_acceptable_match_witness:
  "ParseFloat_plain ''0.9'' = Some (Finite (9 / 10)) \<and>
   ParseFloat_plain ''0.8'' = Some (Finite (8 / 10)) \<and>
   sort_Sort_post
     [\<lparr>typ' = ''application'', subtype = ''xml'', qualityFactor = Finite (9 / 10), extensions = []\<rparr>,
      \<lparr>typ' = ''application'', subtype = ''json'', qualityFactor = Finite (8 / 10), extensions = []\<rparr>]
     (go_sort
       [\<lparr>typ' = ''application'', subtype = ''xml'', qualityFactor = Finite (9 / 10), extensions = []\<rparr>,
        \<lparr>typ' = ''application'', subtype = ''json'', qualityFactor = Finite (8 / 10), extensions = []\<rparr>]) \<and>
   parseAcceptHeader ParseFloat_plain go_sort ''application/xml;q=0.9, application/json;q=0.8'' =
     Inr [\<lparr>typ' = ''application'', subtype = ''xml'', qualityFactor = Finite (9 / 10), extensions = []\<rparr>,
          \<lparr>typ' = ''application'', subtype = ''json'', qualityFactor = Finite (8 / 10), extensions = []\<rparr>] \<and>
   bestFitDecodeType ParseFloat_plain go_sort ''application/xml;q=0.9, application/json;q=0.8'' =
     Inr decodeTypeJSON"
proof -
  have pf9: "ParseFloat_plain ''0.9'' = Some (Finite (9 / 10))"
    by code_simp
  have pf8: "ParseFloat_plain ''0.8'' = Some (Finite (8 / 10))"
    by code_simp
  have post: "sort_Sort_post
     [\<lparr>typ' = ''application'', subtype = ''xml'', qualityFactor = Finite (9 / 10), extensions = []\<rparr>,
      \<lparr>typ' = ''application'', subtype = ''json'', qualityFactor = Finite (8 / 10), extensions = []\<rparr>]
     (go_sort
       [\<lparr>typ' = ''application'', subtype = ''xml'', qualityFactor = Finite (9 / 10), extensions = []\<rparr>,
        \<lparr>typ' = ''application'', subtype = ''json'', qualityFactor = Finite (8 / 10), extensions = []\<rparr>])"
    by code_simp
  show ?thesis
    using first_acceptable_match
        [where pf = ParseFloat_plain and a = "9 / 10" and b = "8 / 10" and srt = go_sort]
      pf9 pf8 post
    by simp
qed

text \<open>
  Claim C5: for the empty header the result is \<^verbatim>\<open>decodeTypeJSON\<close>; and whenever the
  ranked slice is empty the result is \<^verbatim>\<open>decodeTypeJSON\<close>. The empty header itself
  gives the one entry \<^verbatim>\<open>*/*\<close> with quality 1, which the loop matches.
\<close>

theorem empty_header_default:
  assumes "sort_Sort_post [plainEntry ''*'' ''*''] (srt [plainEntry ''*'' ''*''])"
  shows "parseAcceptHeader pf srt [] = Inr [plainEntry ''*'' ''*''] \<and>
         bestFitDecodeType pf srt [] = Inr decodeTypeJSON \<and>
         (parseAcceptHeader pf srt header = Inr [] \<longrightarrow>
          bestFitDecodeType pf srt header = Inr decodeTypeJSON)"
proof -
  from assms have "srt [plainEntry ''*'' ''*''] = [plainEntry ''*'' ''*'']"
    by (rule sort_Sort_post_single)
  then have "parseAcceptHeader pf srt [] = Inr [plainEntry ''*'' ''*'']"
    by (simp add: parseAcceptHeader_eq split_no_comma entries_empty_range plainEntry_def)
  then show ?thesis
    by (simp add: bestFitDecodeType_def plainEntry_def)
qed

text \<open>
  Claim C5 at \<open>ParseFloat_plain\<close> and \<open>go_sort\<close>, with a header whose ranked
  slice is empty.
\<close>

theorem empty_header_default_witness:
  "sort_Sort_post [plainEntry ''*'' ''*''] (go_sort [plainEntry ''*'' ''*'']) \<and>
   parseAcceptHeader ParseFloat_plain go_sort [] = Inr [plainEntry ''*'' ''*''] \<and>
   bestFitDecodeType ParseFloat_plain go_sort [] = Inr decodeTypeJSON \<and>
   parseAcceptHeader ParseFloat_plain go_sort ''a/b/c'' = Inr [] \<and>
   bestFitDecodeType ParseFloat_plain go_sort ''a/b/c'' = Inr decodeTypeJSON"
proof -
  have post: "sort_Sort_post [plainEntry ''*'' ''*''] (go_sort [plainEntry ''*'' ''*''])"
    by code_simp
  have none: "parseAcceptHeader ParseFloat_plain go_sort ''a/b/c'' = Inr []"
    by code_simp
  show ?thesis
    using empty_header_default [where srt = go_sort and pf = ParseFloat_plain and header = "''a/b/c''"]
      post none
    by simp
qed

text \<open>
  Claim C10: types and subtypes are compared as they are written, capitals and small
  letters apart. The header \<^verbatim>\<open>Application/json\<close> gives \<^verbatim>\<open>decodeTypeUnknown\<close>; an
  entry is a match exactly when it is \<^verbatim>\<open>*/*\<close>, \<^verbatim>\<open>application/json\<close> or
  \<^verbatim>\<open>application/*\<close>.
\<close>

theorem case_sensitive_match:
  assumes "sort_Sort_post [plainEntry ''Application'' ''json'']
             (srt [plainEntry ''Application'' ''json''])"
  shows "parseAcceptHeader pf srt ''Application/json'' = Inr [plainEntry ''Application'' ''json''] \<and>
         bestFitDecodeType pf srt ''Application/json'' = Inr decodeTypeUnknown \<and>
         (firstFit [acc] = decodeTypeJSON \<longleftrightarrow>
            typ' acc = ''*'' \<and> subtype acc = ''*'' \<or>
            typ' acc = ''application'' \<and> (subtype acc = ''json'' \<or> subtype acc = ''*''))"
proof -
  from assms have "srt [plainEntry ''Application'' ''json''] = [plainEntry ''Application'' ''json'']"
    by (rule sort_Sort_post_single)
  then have "parseAcceptHeader pf srt ''Application/json'' = Inr [plainEntry ''Application'' ''json'']"
    by (simp add: parseAcceptHeader_eq split_no_comma entries_Application_json plainEntry_def)
  then show ?thesis
    by (simp add: bestFitDecodeType_def plainEntry_def)
qed

text \<open>
  Claim C10 at \<open>ParseFloat_plain\<close> and \<open>go_sort\<close>.
\<close>

theorem case_sensitive_match_witness:
  "sort_Sort_post [plainEntry ''Application'' ''json''] (go_sort [plainEntry ''Application'' ''json'']) \<and>
   parseAcceptHeader ParseFloat_plain go_sort ''Application/json'' =
     Inr [plainEntry ''Application'' ''json''] \<and>
   bestFitDecodeType ParseFloat_plain go_sort ''Application/json'' = Inr decodeTypeUnknown \<and>
   firstFit [plainEntry ''application'' ''json''] = decodeTypeJSON"
proof -
  have post: "sort_Sort_post [plainEntry ''Application'' ''json'']
      (go_sort [plainEntry ''Application'' ''json''])"
    by code_simp
  show ?thesis
    using case_sensitive_match
        [where srt = go_sort and pf = ParseFloat_plain and acc = "plainEntry ''application'' ''json''", OF post]
      post
    by (simp add: plainEntry_def)
qed

subsection \<open>Malformed input\<close>

text \<open>
  Claim C7: a media range with more than two segments between the slashes of its
  type/subtype part adds no entry, and the header with it returns what the header
  without it returns, wherever in the header it stands.
\<close>

theorem per_token_isolation:
  assumes "malformedTypeSubtype bad" and "CHR '','' \<notin> set bad"
  shows "acceptMediaRange pf bad accepted = Inr accepted \<and>
         parseAcceptHeader pf srt (pre @ '','' @ bad @ '','' @ post) =
           parseAcceptHeader pf srt (pre @ '','' @ post) \<and>
         parseAcceptHeader pf srt (bad @ '','' @ post) = parseAcceptHeader pf srt post \<and>
         parseAcceptHeader pf srt (pre @ '','' @ bad) = parseAcceptHeader pf srt pre \<and>
         parseAcceptHeader pf srt bad = Inr (srt [])"
proof -
  have single: "strings_Split bad CHR '','' = [bad]"
    using assms(2) by (rule strings_Split_single)
  have none: "mediaRangeEntries pf bad = []"
    using assms(1) by (rule mediaRangeEntries_malformed)
  have "strings_Split (pre @ '','' @ bad @ '','' @ post) CHR '','' =
        strings_Split pre CHR '','' @ [bad] @ strings_Split post CHR '',''"
    using strings_Split_append [of pre "CHR '',''" "bad @ '','' @ post"]
      strings_Split_append [of bad "CHR '',''" post] single
    by simp
  moreover have "strings_Split (pre @ '','' @ post) CHR '','' =
        strings_Split pre CHR '','' @ strings_Split post CHR '',''"
    using strings_Split_append [of pre "CHR '',''" post] by simp
  moreover have "strings_Split (bad @ '','' @ post) CHR '','' = [bad] @ strings_Split post CHR '',''"
    using strings_Split_append [of bad "CHR '',''" post] single by simp
  moreover have "strings_Split (pre @ '','' @ bad) CHR '','' = strings_Split pre CHR '','' @ [bad]"
    using strings_Split_append [of pre "CHR '',''" bad] single by simp
  ultimately show ?thesis
    using none single acceptMediaRange_malformed [OF assms(1)]
    by (simp add: parseAcceptHeader_eq)
qed

text \<open>
  Claim C7 at the media range \<^verbatim>\<open>a/b/c\<close>.
\<close>

theorem per_token_isolation_witness:
  "malformedTypeSubtype ''a/b/c'' \<and> CHR '','' \<notin> set ''a/b/c'' \<and>
   parseAcceptHeader ParseFloat_plain go_sort ''text/html;q=0.8,a/b/c,application/json'' =
     parseAcceptHeader ParseFloat_plain go_sort ''text/html;q=0.8,application/json'' \<and>
   parseAcceptHeader ParseFloat_plain go_sort ''text/html;q=0.8,application/json'' =
     Inr [plainEntry ''application'' ''json'',
          \<lparr>typ' = ''text'', subtype = ''html'', qualityFactor = Finite (8 / 10), extensions = []\<rparr>] \<and>
   parseAcceptHeader ParseFloat_plain go_sort ''a/b/c'' = Inr []"
proof -
  have m: "malformedTypeSubtype ''a/b/c''"
    by code_simp
  have c: "CHR '','' \<notin> set ''a/b/c''"
    by simp
  have v: "parseAcceptHeader ParseFloat_plain go_sort ''text/html;q=0.8,application/json'' =
     Inr [plainEntry ''application'' ''json'',
          \<lparr>typ' = ''text'', subtype = ''html'', qualityFactor = Finite (8 / 10), extensions = []\<rparr>]"
    by code_simp
  have s: "go_sort [] = []"
    by (simp add: go_sort_def sort_Sort_def)
  show ?thesis
    using per_token_isolation [OF m c, where pf = ParseFloat_plain and srt = go_sort
        and pre = "''text/html;q=0.8''" and post = "''application/json''"] m c v s
    by simp
qed

text \<open>
  Claim C9: for every header \<^verbatim>\<open>bestFitDecodeType\<close> returns \<^verbatim>\<open>decodeTypeJSON\<close> or
  \<^verbatim>\<open>decodeTypeUnknown\<close>; no index is ever out of range, whatever the quality parser
  and the sort return.
\<close>

theorem bestFitDecodeType_total:
  "bestFitDecodeType pf srt header = Inr decodeTypeJSON \<or>
   bestFitDecodeType pf srt header = Inr decodeTypeUnknown"
proof (cases "firstFit (srt (concat (map (mediaRangeEntries pf) (strings_Split header CHR '',''))))")
  case decodeTypeUnknown
  then show ?thesis by (simp add: bestFitDecodeType_def parseAcceptHeader_eq)
next
  case decodeTypeJSON
  then show ?thesis by (simp add: bestFitDecodeType_def parseAcceptHeader_eq)
qed

subsection \<open>The signing transport\<close>

text \<open>
  Claim C3 says that the transport adds the digest, the timestamp and the key as
  headers and changes nothing else of the request. It also writes the scheme and the
  host of its own URL into the URL of the request, sets \<^verbatim>\<open>Content-Type\<close> and adds
  the passphrase as a header, as the run on \<open>req_example\<close> shows.
\<close>

theorem RoundTrip_rewrites_request:
  "RoundTrip env_example auth_example req_example = Inr forwarded_example \<and>
   Scheme (URL forwarded_example) \<noteq> Scheme (URL req_example) \<and>
   Host (URL forwarded_example) \<noteq> Host (URL req_example) \<and>
   Header forwarded_example ''Content-Type'' \<noteq> Header req_example ''Content-Type'' \<and>
   Header forwarded_example ''Cb-Access-Passphrase'' \<noteq> Header req_example ''Cb-Access-Passphrase''"
  by (simp add: RoundTrip_def env_example_def auth_example_def req_example_def forwarded_example_def
      generageMsg_def parsebytes_def generateSig_def Header_Set_def Header_Add_def Header_Values_def
      strconv_FormatInt10_def decimalDigits.simps Let_def)

text \<open>
  Claim C3 as the code has it. With a URL set and a secret that decodes, the request
  handed on has the method and the body of the request it was given; its URL differs
  in scheme and host only, which are those of the transport's URL; the header
  \<^verbatim>\<open>Content-Type\<close> is \<^verbatim>\<open>application/json\<close>; the key, the passphrase, the digest and
  the timestamp are added under their four keys; every other header is as it was.
\<close>

theorem RoundTrip_forwards:
  assumes "url auth = Some u" and "base64_DecodeString e (secret auth) = Some k"
  shows "\<exists>r. RoundTrip e auth req = Inr r \<and>
     Method r = Method req \<and> Body r = Body req \<and>
     URL r = (URL req)\<lparr>Scheme := Scheme u, Host := Host u\<rparr> \<and>
     Header r ''Content-Type'' = Some [''application/json''] \<and>
     Header r ''Cb-Access-Key'' = Some (Header_Values (Header req) ''Cb-Access-Key'' @ [key auth]) \<and>
     Header r ''Cb-Access-Passphrase'' =
       Some (Header_Values (Header req) ''Cb-Access-Passphrase'' @ [passphrase auth]) \<and>
     Header r ''Cb-Access-Sign'' =
       Some (Header_Values (Header req) ''Cb-Access-Sign'' @
         [base64_EncodeToString e (hmac_sha256 e k
            (strconv_FormatInt10 (now_Unix e) @ Method req @
             strings_Replace1 (URL_String e (URL req)) (URL_String e u) [] @
             (case Body req of None \<Rightarrow> [] | Some body \<Rightarrow> body)))]) \<and>
     Header r ''Cb-Access-Timestamp'' =
       Some (Header_Values (Header req) ''Cb-Access-Timestamp'' @
         [strconv_FormatInt10 (now_Unix e)]) \<and>
     Header r = (Header req)
       (''Content-Type'' := Header r ''Content-Type'',
        ''Cb-Access-Key'' := Header r ''Cb-Access-Key'',
        ''Cb-Access-Passphrase'' := Header r ''Cb-Access-Passphrase'',
        ''Cb-Access-Sign'' := Header r ''Cb-Access-Sign'',
        ''Cb-Access-Timestamp'' := Header r ''Cb-Access-Timestamp'')"
proof -
  define sig where "sig = base64_EncodeToString e (hmac_sha256 e k
            (strconv_FormatInt10 (now_Unix e) @ Method req @
             strings_Replace1 (URL_String e (URL req)) (URL_String e u) [] @
             (case Body req of None \<Rightarrow> [] | Some body \<Rightarrow> body)))"
  define h where "h = Header_Add (Header_Add (Header_Add (Header_Add
                  (Header_Set (Header req) ''Content-Type'' ''application/json'')
                  ''Cb-Access-Key'' (key auth))
                  ''Cb-Access-Passphrase'' (passphrase auth))
                  ''Cb-Access-Sign'' sig)
                  ''Cb-Access-Timestamp'' (strconv_FormatInt10 (now_Unix e))"
  define r where "r = req\<lparr>URL := (URL req)\<lparr>Scheme := Scheme u, Host := Host u\<rparr>, Header := h\<rparr>"
  have run: "RoundTrip e auth req = Inr r"
    unfolding r_def h_def sig_def using assms by (rule RoundTrip_eq)
  have fields: "Method r = Method req" "Body r = Body req"
    "URL r = (URL req)\<lparr>Scheme := Scheme u, Host := Host u\<rparr>" "Header r = h"
    by (simp_all add: r_def)
  have ct: "h ''Content-Type'' = Some [''application/json'']"
    by (simp add: h_def Header_Add_apply Header_Set_apply)
  have ck: "h ''Cb-Access-Key'' = Some (Header_Values (Header req) ''Cb-Access-Key'' @ [key auth])"
    by (simp add: h_def Header_Add_apply Header_Values_Set)
  have cp: "h ''Cb-Access-Passphrase'' =
      Some (Header_Values (Header req) ''Cb-Access-Passphrase'' @ [passphrase auth])"
    by (simp add: h_def Header_Add_apply Header_Values_Add Header_Values_Set)
  have cs: "h ''Cb-Access-Sign'' = Some (Header_Values (Header req) ''Cb-Access-Sign'' @ [sig])"
    by (simp add: h_def Header_Add_apply Header_Values_Add Header_Values_Set)
  have cts: "h ''Cb-Access-Timestamp'' =
      Some (Header_Values (Header req) ''Cb-Access-Timestamp'' @ [strconv_FormatInt10 (now_Unix e)])"
    by (simp add: h_def Header_Add_apply Header_Values_Add Header_Values_Set)
  have other: "h x = Header req x"
    if "x \<noteq> ''Content-Type''" "x \<noteq> ''Cb-Access-Key''" "x \<noteq> ''Cb-Access-Passphrase''"
      "x \<noteq> ''Cb-Access-Sign''" "x \<noteq> ''Cb-Access-Timestamp''" for x
    using that by (simp add: h_def Header_Add_apply Header_Set_apply)
  have frame: "Header r = (Header req)
       (''Content-Type'' := Header r ''Content-Type'',
        ''Cb-Access-Key'' := Header r ''Cb-Access-Key'',
        ''Cb-Access-Passphrase'' := Header r ''Cb-Access-Passphrase'',
        ''Cb-Access-Sign'' := Header r ''Cb-Access-Sign'',
        ''Cb-Access-Timestamp'' := Header r ''Cb-Access-Timestamp'')"
    unfolding fields(4)
  proof (rule ext)
    fix x
    show "h x = ((Header req)
       (''Content-Type'' := h ''Content-Type'',
        ''Cb-Access-Key'' := h ''Cb-Access-Key'',
        ''Cb-Access-Passphrase'' := h ''Cb-Access-Passphrase'',
        ''Cb-Access-Sign'' := h ''Cb-Access-Sign'',
        ''Cb-Access-Timestamp'' := h ''Cb-Access-Timestamp'')) x"
      using other [of x] by (simp only: fun_upd_apply split: if_split) blast
  qed
  note hdr = ct ck cp cs [unfolded sig_def] cts
  show ?thesis
    by (rule exI [of _ r], intro conjI)
      (fact run fields(1-3) hdr [folded fields(4)] frame)+
qed

text \<open>
  Claim C3 as the code has it, at \<open>env_example\<close>, \<open>auth_example\<close> and
  \<open>req_example\<close>.
\<close>

theorem RoundTrip_forwards_witness:
  "url auth_example =
     Some \<lparr>Scheme = ''https'', Opaque = [], Host = ''api.example.com'', Path = [],
            RawQuery = [], Fragment = []\<rparr> \<and>
   base64_DecodeString env_example (secret auth_example) = Some ''s3'' \<and>
   RoundTrip env_example auth_example req_example = Inr forwarded_example \<and>
   Method forwarded_example = Method req_example \<and>
   Body forwarded_example = Body req_example \<and>
   Path (URL forwarded_example) = Path (URL req_example) \<and>
   Header forwarded_example ''Accept'' = Header req_example ''Accept'' \<and>
   Header forwarded_example ''Cb-Access-Key'' = Some [''id'']"
proof -
  have u: "url auth_example =
     Some \<lparr>Scheme = ''https'', Opaque = [], Host = ''api.example.com'', Path = [],
            RawQuery = [], Fragment = []\<rparr>"
    by (simp add: auth_example_def)
  have k: "base64_DecodeString env_example (secret auth_example) = Some ''s3''"
    by (simp add: auth_example_def env_example_def)
  have run: "RoundTrip env_example auth_example req_example = Inr forwarded_example"
    by (simp add: RoundTrip_def env_example_def auth_example_def req_example_def
        forwarded_example_def generageMsg_def parsebytes_def generateSig_def Header_Set_def
        Header_Add_def Header_Values_def strconv_FormatInt10_def decimalDigits.simps Let_def)
  from RoundTrip_forwards [OF u k, of req_example] obtain r where
    r: "RoundTrip env_example auth_example req_example = Inr r"
    and m: "Method r = Method req_example"
    and b: "Body r = Body req_example"
    and l: "URL r = (URL req_example)\<lparr>Scheme := ''https'', Host := ''api.example.com''\<rparr>"
    and i: "Header r ''Cb-Access-Key'' =
      Some (Header_Values (Header req_example) ''Cb-Access-Key'' @ [key auth_example])"
    and f: "Header r = (Header req_example)
       (''Content-Type'' := Header r ''Content-Type'',
        ''Cb-Access-Key'' := Header r ''Cb-Access-Key'',
        ''Cb-Access-Passphrase'' := Header r ''Cb-Access-Passphrase'',
        ''Cb-Access-Sign'' := Header r ''Cb-Access-Sign'',
        ''Cb-Access-Timestamp'' := Header r ''Cb-Access-Timestamp'')"
    by (elim exE conjE) simp
  from r run have eq: "r = forwarded_example"
    by simp
  have "Path (URL r) = Path (URL req_example)"
    by (simp add: l)
  moreover have "Header r ''Accept'' = Header req_example ''Accept''"
    by (subst f) simp
  moreover have "Header r ''Cb-Access-Key'' = Some [''id'']"
    by (simp add: i Header_Values_def req_example_def auth_example_def)
  ultimately show ?thesis
    using u k run m b unfolding eq by simp
qed

end
